theory Spec2Isabelle
  imports Complex_Main "HOL-Library.Log_Nat"
begin

section \<open>Python floats\<close>

text \<open>
  The conveyor and the gate do their arithmetic on Python floats (IEEE 754 binary64):
  \<^verbatim>\<open>self.position += self.speed\<close> with \<^verbatim>\<open>speed = 0.5\<close>, and
  \<^verbatim>\<open>self.position += 0.1\<close>, \<^verbatim>\<open>self.position -= 0.1\<close>. A finite double is a
  rational number, so the values are modelled as \<^typ>\<open>rat\<close>; the integers \<open>0\<close> and \<open>1\<close>
  that the source stores in the same fields are the same rationals, and Python compares
  an \<^verbatim>\<open>int\<close> with a \<^verbatim>\<open>float\<close> by value. A sum is the exact sum rounded to the nearest
  double, ties to the even mantissa (53 bits, the smallest exponent \<open>-1074\<close>). Adding
  \<open>0.5\<close> or \<open>0.1\<close> to a finite double never overflows, so no infinity is needed.
\<close>

definition pow2 :: "int \<Rightarrow> rat" where
  "pow2 e = (if 0 \<le> e then 2 ^ nat e else 1 / 2 ^ nat (- e))"

text \<open>\<open>ilog2 x\<close> is the binary exponent of \<open>x > 0\<close>: \<open>2 ^ ilog2 x \<le> x < 2 ^ (ilog2 x + 1)\<close>.\<close>

definition ilog2 :: "rat \<Rightarrow> int" where
  "ilog2 x = (let (a, b) = quotient_of x; e = bitlen a - bitlen b
              in if pow2 e \<le> x then e else e - 1)"

definition round_half_even :: "rat \<Rightarrow> int" where
  "round_half_even x =
     (let f = \<lfloor>x\<rfloor>; d = x - of_int f
      in if d < 1 / 2 then f
         else if 1 / 2 < d then f + 1
         else if even f then f else f + 1)"

definition round_double :: "rat \<Rightarrow> rat" where
  "round_double x =
     (if x = 0 then 0
      else let u = pow2 (max (ilog2 \<bar>x\<bar> - 52) (- 1074))
           in of_int (round_half_even (x / u)) * u)"

text \<open>A decimal literal of the source denotes the double nearest to it.\<close>

definition float_literal :: "rat \<Rightarrow> rat" where
  "float_literal q = round_double q"

definition fadd :: "rat \<Rightarrow> rat \<Rightarrow> rat" where
  "fadd x y = round_double (x + y)"

definition fsub :: "rat \<Rightarrow> rat \<Rightarrow> rat" where
  "fsub x y = round_double (x - y)"

section \<open>The mechatronics components\<close>

datatype ObjectColor = RED | GREEN | BLUE | UNKNOWN

text \<open>
  An object on the conveyor is the dictionary
  \<^verbatim>\<open>{"color": color, "position": 0, "id": random.randint(1000, 9999)}\<close>.
\<close>

record object =
  obj_color :: ObjectColor
  obj_position :: rat
  obj_id :: int

record VirtualConveyor =
  conveyor_position :: rat
  speed :: rat
  objects :: "object list"

definition VirtualConveyor_init :: VirtualConveyor where
  "VirtualConveyor_init =
     \<lparr>conveyor_position = 0, speed = float_literal (1 / 2), objects = []\<rparr>"

text \<open>
  \<open>add_object\<close> appends to \<^verbatim>\<open>self.objects\<close>. The argument \<open>i\<close> is the outcome of
  \<^verbatim>\<open>random.randint(1000, 9999)\<close>, an integer with \<open>1000 \<le> i \<le> 9999\<close>.
\<close>

definition add_object :: "ObjectColor \<Rightarrow> int \<Rightarrow> VirtualConveyor \<Rightarrow> VirtualConveyor" where
  "add_object c i s =
     s\<lparr>objects := objects s @ [\<lparr>obj_color = c, obj_position = 0, obj_id = i\<rparr>]\<rparr>"

definition advance :: "rat \<Rightarrow> object \<Rightarrow> object" where
  "advance v obj = obj\<lparr>obj_position := fadd (obj_position obj) v\<rparr>"

text \<open>
  \<open>update\<close> moves the conveyor and every object of \<^verbatim>\<open>self.objects\<close>, and returns the
  list comprehension \<^verbatim>\<open>[obj for obj in self.objects if obj["position"] < 100]\<close>. It
  does not assign to \<^verbatim>\<open>self.objects\<close>: the second component is the conveyor after
  the call.
\<close>

definition VirtualConveyor_update :: "VirtualConveyor \<Rightarrow> object list \<times> VirtualConveyor" where
  "VirtualConveyor_update s =
     (let s' = s\<lparr>conveyor_position := fadd (conveyor_position s) (speed s),
                  objects := map (advance (speed s)) (objects s)\<rparr>
      in (filter (\<lambda>obj. obj_position obj < 100) (objects s'), s'))"

record VirtualActuator =
  actuator_position :: rat
  target :: rat

definition VirtualActuator_init :: VirtualActuator where
  "VirtualActuator_init = \<lparr>actuator_position = 0, target = 0\<rparr>"

definition set_position :: "rat \<Rightarrow> VirtualActuator \<Rightarrow> VirtualActuator" where
  "set_position pos a = a\<lparr>target := pos\<rparr>"

definition VirtualActuator_update :: "VirtualActuator \<Rightarrow> rat \<times> VirtualActuator" where
  "VirtualActuator_update a =
     (let a' = (if actuator_position a < target a
                then a\<lparr>actuator_position := fadd (actuator_position a) (float_literal (1 / 10))\<rparr>
                else if target a < actuator_position a
                then a\<lparr>actuator_position := fsub (actuator_position a) (float_literal (1 / 10))\<rparr>
                else a)
      in (actuator_position a', a'))"

section \<open>The colour detector\<close>

text \<open>
  An HSV image is the list of its pixels, each a triple of 8-bit channel values.
  \<^verbatim>\<open>cv2.inRange\<close> marks the pixels all of whose channels lie between the bounds
  (both inclusive), and \<^verbatim>\<open>cv2.countNonZero\<close> counts the marked ones. The colour
  conversion \<^verbatim>\<open>cv2.cvtColor(frame, cv2.COLOR_BGR2HSV)\<close> belongs to OpenCV and is a
  parameter \<open>cvt\<close> of the detector.
\<close>

type_synonym hsv = "nat \<times> nat \<times> nat"

definition inRange :: "hsv list \<Rightarrow> hsv \<Rightarrow> hsv \<Rightarrow> bool list" where
  "inRange img lower upper =
     map (\<lambda>(h, s, v).
            (case lower of (lh, ls, lv) \<Rightarrow>
              (case upper of (uh, us, uv) \<Rightarrow>
                 lh \<le> h \<and> h \<le> uh \<and> ls \<le> s \<and> s \<le> us \<and> lv \<le> v \<and> v \<le> uv))) img"

definition countNonZero :: "bool list \<Rightarrow> nat" where
  "countNonZero m = length (filter (\<lambda>b. b) m)"

definition lower_red :: hsv where "lower_red = (0, 100, 100)"
definition upper_red :: hsv where "upper_red = (10, 255, 255)"
definition lower_green :: hsv where "lower_green = (40, 100, 100)"
definition upper_green :: hsv where "upper_green = (80, 255, 255)"
definition lower_blue :: hsv where "lower_blue = (100, 100, 100)"
definition upper_blue :: hsv where "upper_blue = (140, 255, 255)"

text \<open>The \<^verbatim>\<open>if\<close>/\<^verbatim>\<open>elif\<close> chain of \<open>detect\<close> on the three pixel counts.\<close>

definition dominant :: "nat \<Rightarrow> nat \<Rightarrow> nat \<Rightarrow> ObjectColor" where
  "dominant red_pixels green_pixels blue_pixels =
     (if red_pixels > green_pixels \<and> red_pixels > blue_pixels then RED
      else if green_pixels > red_pixels \<and> green_pixels > blue_pixels then GREEN
      else if blue_pixels > red_pixels \<and> blue_pixels > green_pixels then BLUE
      else UNKNOWN)"

definition red_pixels :: "hsv list \<Rightarrow> nat" where
  "red_pixels img = countNonZero (inRange img lower_red upper_red)"

definition green_pixels :: "hsv list \<Rightarrow> nat" where
  "green_pixels img = countNonZero (inRange img lower_green upper_green)"

definition blue_pixels :: "hsv list \<Rightarrow> nat" where
  "blue_pixels img = countNonZero (inRange img lower_blue upper_blue)"

definition detect :: "('f \<Rightarrow> hsv list) \<Rightarrow> 'f \<Rightarrow> ObjectColor" where
  "detect cvt frame =
     (let img = cvt frame
      in dominant (red_pixels img) (green_pixels img) (blue_pixels img))"

section \<open>The sorter\<close>

record AutomatedSorter =
  conveyor :: VirtualConveyor
  gate :: VirtualActuator
  target_color :: ObjectColor
  sorted_counts :: "ObjectColor \<Rightarrow> int"

definition AutomatedSorter_init :: AutomatedSorter where
  "AutomatedSorter_init =
     \<lparr>conveyor = VirtualConveyor_init, gate = VirtualActuator_init,
      target_color = RED, sorted_counts = (\<lambda>color. 0)\<rparr>"

text \<open>
  One pass of the \<^verbatim>\<open>while True\<close> loop of \<open>run\<close> reads three things from outside: the
  frame of the virtual camera, the random draws that decide whether an object is added
  (\<open>None\<close> when \<^verbatim>\<open>random.random() < 0.03\<close> is false, otherwise the colour chosen and
  the identifier drawn), and the key code \<^verbatim>\<open>cv2.waitKey(30)\<close> returns (\<open>-1\<close> when no
  key is pressed).
\<close>

record 'f pass_input =
  frame :: 'f
  spawn :: "(ObjectColor \<times> int) option"
  key :: int

text \<open>Steps 1 and 2: the detection and the control decision.\<close>

definition control :: "('f \<Rightarrow> hsv list) \<Rightarrow> 'f \<Rightarrow> AutomatedSorter \<Rightarrow> AutomatedSorter" where
  "control cvt fr s =
     (let color = detect cvt fr
      in if color = target_color s
         then s\<lparr>gate := set_position 1 (gate s),
                sorted_counts := (sorted_counts s)(color := sorted_counts s color + 1)\<rparr>
         else s\<lparr>gate := set_position 0 (gate s)\<rparr>)"

text \<open>
  Steps 1 to 4: what the pass hands to the drawing code (the gate position and the
  active objects) and the sorter after the two updates.
\<close>

definition tick ::
  "('f \<Rightarrow> hsv list) \<Rightarrow> 'f \<Rightarrow> AutomatedSorter \<Rightarrow> (rat \<times> object list) \<times> AutomatedSorter" where
  "tick cvt fr s =
     (let s1 = control cvt fr s;
          (gate_pos, g) = VirtualActuator_update (gate s1);
          (active_objects, c) = VirtualConveyor_update (conveyor s1)
      in ((gate_pos, active_objects), s1\<lparr>gate := g, conveyor := c\<rparr>))"

definition spawn_object :: "(ObjectColor \<times> int) option \<Rightarrow> AutomatedSorter \<Rightarrow> AutomatedSorter" where
  "spawn_object sp s =
     (case sp of None \<Rightarrow> s
      | Some (c, i) \<Rightarrow> s\<lparr>conveyor := add_object c i (conveyor s)\<rparr>)"

text \<open>
  The key controls: \<open>q\<close> (113) leaves the loop, \<open>r\<close> (114), \<open>g\<close> (103) and \<open>b\<close> (98)
  choose the target colour. The result is the sorter and whether the loop goes on.
\<close>

definition key_controls :: "int \<Rightarrow> AutomatedSorter \<Rightarrow> AutomatedSorter \<times> bool" where
  "key_controls k s =
     (if k = 113 then (s, False)
      else if k = 114 then (s\<lparr>target_color := RED\<rparr>, True)
      else if k = 103 then (s\<lparr>target_color := GREEN\<rparr>, True)
      else if k = 98 then (s\<lparr>target_color := BLUE\<rparr>, True)
      else (s, True))"

definition loop_pass ::
  "('f \<Rightarrow> hsv list) \<Rightarrow> 'f pass_input \<Rightarrow> AutomatedSorter \<Rightarrow> AutomatedSorter \<times> bool" where
  "loop_pass cvt inp s =
     key_controls (key inp) (spawn_object (spawn inp) (snd (tick cvt (frame inp) s)))"

text \<open>
  The loop of \<open>run\<close> over the inputs of its first passes: it stops at the \<open>q\<close> key, and
  otherwise the result is the sorter after the last pass listed.
\<close>

fun run :: "('f \<Rightarrow> hsv list) \<Rightarrow> 'f pass_input list \<Rightarrow> AutomatedSorter \<Rightarrow> AutomatedSorter" where
  "run cvt [] s = s"
| "run cvt (inp # inps) s =
     (case loop_pass cvt inp s of
        (s', continue) \<Rightarrow> if continue then run cvt inps s' else s')"

text \<open>The inputs of a pass in which no object is added and no key is pressed.\<close>

definition quiet_pass :: "'f \<Rightarrow> 'f pass_input" where
  "quiet_pass fr = \<lparr>frame = fr, spawn = None, key = - 1\<rparr>"

text \<open>Calls on a conveyor, in sequence.\<close>

datatype conveyor_call = Add_object ObjectColor int | Update

fun call :: "conveyor_call \<Rightarrow> VirtualConveyor \<Rightarrow> VirtualConveyor" where
  "call (Add_object c i) s = add_object c i s"
| "call Update s = snd (VirtualConveyor_update s)"

fun calls :: "conveyor_call list \<Rightarrow> VirtualConveyor \<Rightarrow> VirtualConveyor" where
  "calls [] s = s"
| "calls (x # xs) s = calls xs (call x s)"

text \<open>Repeated \<open>update\<close> calls on the gate.\<close>

fun actuator_updates :: "nat \<Rightarrow> VirtualActuator \<Rightarrow> VirtualActuator" where
  "actuator_updates 0 a = a"
| "actuator_updates (Suc n) a = actuator_updates n (snd (VirtualActuator_update a))"

section \<open>Rounding: the sums that are exact\<close>

lemma pow2_powi: "pow2 e = 2 powi e"
  by (simp add: pow2_def power_int_def inverse_eq_divide power_one_over)

lemma pow2_mono: "a \<le> b \<Longrightarrow> pow2 a \<le> pow2 b"
  by (simp add: pow2_powi power_int_increasing)

lemma ilog2_lower:
  assumes "0 < x"
  shows "pow2 (ilog2 x) \<le> x"
proof -
  obtain a b where q: "quotient_of x = (a, b)" by (cases "quotient_of x")
  have b: "0 < b" using q quotient_of_denom_pos by blast
  have x: "x = of_int a / of_int b" using q quotient_of_div by blast
  have a: "0 < a" using assms b x by (simp add: zero_less_divide_iff)
  have la: "(2::rat) powi (bitlen a - 1) \<le> of_int a"
  proof -
    have "2 ^ nat (bitlen a - 1) \<le> a" using bitlen_bounds [OF a] by simp
    then have "(of_int (2 ^ nat (bitlen a - 1)) :: rat) \<le> of_int a"
      by (simp only: of_int_le_iff)
    moreover have "0 \<le> bitlen a - 1"
      using a bitlen_eq_zero_iff [of a] bitlen_nonneg [of a] by linarith
    ultimately show ?thesis by (simp add: power_int_def)
  qed
  have lb: "of_int b < (2::rat) powi (bitlen b)"
  proof -
    have "b < 2 ^ nat (bitlen b)" using bitlen_bounds [OF b] by simp
    then have "(of_int b :: rat) < of_int (2 ^ nat (bitlen b))"
      by (simp only: of_int_less_iff)
    then show ?thesis using bitlen_nonneg [of b] by (simp add: power_int_def)
  qed
  have "(2::rat) powi (bitlen a - bitlen b - 1) = 2 powi (bitlen a - 1) / 2 powi (bitlen b)"
    by (simp add: power_int_diff)
  also have "\<dots> \<le> of_int a / 2 powi (bitlen b)"
    using la by (simp add: divide_right_mono)
  also have "\<dots> \<le> of_int a / of_int b"
    using lb a b by (simp add: frac_le)
  finally have "pow2 (bitlen a - bitlen b - 1) \<le> x" by (simp add: pow2_powi x)
  then show ?thesis
    by (simp add: ilog2_def q Let_def)
qed

lemma ilog2_less:
  assumes "0 < x" and "x < pow2 n"
  shows "ilog2 x < n"
proof (rule ccontr)
  assume "\<not> ilog2 x < n"
  then have "pow2 n \<le> pow2 (ilog2 x)" by (simp add: pow2_mono)
  with ilog2_lower [OF assms(1)] assms(2) show False by simp
qed

lemma round_half_even_of_int: "round_half_even (of_int m) = m"
  by (simp add: round_half_even_def)

text \<open>A multiple of one half below \<open>2 ^ 52\<close> is a double: rounding leaves it alone.\<close>

lemma round_double_half:
  assumes "0 \<le> k" and "k < 2 ^ 53"
  shows "round_double (of_int k / 2) = of_int k / 2"
proof (cases "k = 0")
  case True
  then show ?thesis by (simp add: round_double_def)
next
  case False
  define x :: rat where "x = of_int k / 2"
  have xpos: "0 < x" using assms False by (simp add: x_def)
  have "of_int k < (2 ^ 53 :: rat)"
    using assms(2) by (metis of_int_less_iff of_int_numeral of_int_power)
  then have "x < pow2 52" by (simp add: x_def pow2_def)
  then have e: "ilog2 x < 52" using ilog2_less xpos by blast
  define e where "e = max (ilog2 \<bar>x\<bar> - 52) (- 1074)"
  have e1: "e \<le> - 1" using e xpos by (simp add: e_def)
  define n where "n = nat (- e - 1)"
  have en: "e = - int (Suc n)" using e1 by (simp add: n_def)
  have "nat (- e) = Suc n" using en by simp
  then have u: "pow2 e = 1 / (2 * 2 ^ n)" using e1 by (simp add: pow2_def)
  have "x / pow2 e = of_int (k * 2 ^ n)" unfolding u x_def by simp
  then have "round_half_even (x / pow2 e) = k * 2 ^ n"
    by (simp only: round_half_even_of_int)
  then have "of_int (round_half_even (x / pow2 e)) * pow2 e = x"
    unfolding u x_def by simp
  then have "of_int (round_half_even (x / pow2 (max (ilog2 \<bar>x\<bar> - 52) (- 1074))))
      * pow2 (max (ilog2 \<bar>x\<bar> - 52) (- 1074)) = x"
    by (simp only: e_def)
  moreover have "x \<noteq> 0" using xpos by simp
  ultimately show ?thesis unfolding x_def [symmetric] round_double_def Let_def
    by (simp only: if_False)
qed

lemma float_literal_half: "float_literal (1 / 2) = 1 / 2"
  using round_double_half [of 1] by (simp add: float_literal_def)

lemma fadd_half:
  assumes "n < 9007199254740991"
  shows "fadd (of_nat n / 2) (1 / 2) = of_nat (Suc n) / 2"
proof -
  have "(2::int) ^ 53 = 9007199254740992" by simp
  moreover have "int (Suc n) < 9007199254740992" using assms by simp
  ultimately have less: "int (Suc n) < 2 ^ 53" by (simp only:)
  have sum: "(of_nat n / 2 + 1 / 2 :: rat) = of_int (int (Suc n)) / 2"
    by (simp add: add_divide_distrib)
  have "fadd (of_nat n / 2) (1 / 2) = round_double (of_int (int (Suc n)) / 2)"
    by (simp only: fadd_def sum)
  also have "\<dots> = of_int (int (Suc n)) / 2"
    using less by (intro round_double_half) simp_all
  finally show ?thesis by simp
qed

text \<open>
  At \<open>2 ^ 52\<close> the doubles are the integers: one half more is a tie, which goes to the
  even neighbour, the number itself.
\<close>

lemma fadd_half_stuck: "fadd 4503599627370496 (1 / 2) = 4503599627370496"
  by code_simp

lemma fadd_half_last: "fadd (9007199254740991 / 2) (1 / 2) = 4503599627370496"
  by code_simp

text \<open>The double that the literal \<^verbatim>\<open>0.1\<close> denotes.\<close>

lemma float_literal_tenth: "float_literal (1 / 10) = 3602879701896397 / 36028797018963968"
  by code_simp

section \<open>The gate\<close>

lemma actuator_updates_add:
  "actuator_updates (m + n) a = actuator_updates n (actuator_updates m a)"
  by (induction m arbitrary: a) simp_all

lemma opening_sums:
  "fadd 0 (3602879701896397 / 36028797018963968) = 3602879701896397 / 36028797018963968"
  "fadd (3602879701896397 / 36028797018963968) (3602879701896397 / 36028797018963968) =
     3602879701896397 / 18014398509481984"
  "fadd (3602879701896397 / 18014398509481984) (3602879701896397 / 36028797018963968) =
     1351079888211149 / 4503599627370496"
  "fadd (1351079888211149 / 4503599627370496) (3602879701896397 / 36028797018963968) =
     3602879701896397 / 9007199254740992"
  "fadd (3602879701896397 / 9007199254740992) (3602879701896397 / 36028797018963968) = 1 / 2"
  "fadd (1 / 2) (3602879701896397 / 36028797018963968) = 5404319552844595 / 9007199254740992"
  "fadd (5404319552844595 / 9007199254740992) (3602879701896397 / 36028797018963968) =
     3152519739159347 / 4503599627370496"
  "fadd (3152519739159347 / 4503599627370496) (3602879701896397 / 36028797018963968) =
     7205759403792793 / 9007199254740992"
  "fadd (7205759403792793 / 9007199254740992) (3602879701896397 / 36028797018963968) =
     2026619832316723 / 2251799813685248"
  "fadd (2026619832316723 / 2251799813685248) (3602879701896397 / 36028797018963968) =
     9007199254740991 / 9007199254740992"
  "fadd (9007199254740991 / 9007199254740992) (3602879701896397 / 36028797018963968) =
     4953959590107545 / 4503599627370496"
  "fsub (4953959590107545 / 4503599627370496) (3602879701896397 / 36028797018963968) =
     9007199254740991 / 9007199254740992"
  by code_simp+

lemma opening_step:
  "p < 1 \<Longrightarrow> VirtualActuator_update \<lparr>actuator_position = p, target = 1\<rparr> =
     (fadd p (3602879701896397 / 36028797018963968),
      \<lparr>actuator_position = fadd p (3602879701896397 / 36028797018963968), target = 1\<rparr>)"
  by (simp add: VirtualActuator_update_def float_literal_tenth)

lemma closing_step:
  "1 < p \<Longrightarrow> VirtualActuator_update \<lparr>actuator_position = p, target = 1\<rparr> =
     (fsub p (3602879701896397 / 36028797018963968),
      \<lparr>actuator_position = fsub p (3602879701896397 / 36028797018963968), target = 1\<rparr>)"
  by (simp add: VirtualActuator_update_def float_literal_tenth)

lemma opening_start:
  "set_position 1 VirtualActuator_init = \<lparr>actuator_position = 0, target = 1\<rparr>"
  by (simp add: set_position_def VirtualActuator_init_def)

lemma opening_positions:
  "map (\<lambda>n. actuator_position (actuator_updates n (set_position 1 VirtualActuator_init))) [0..<11] =
     [0,
      3602879701896397 / 36028797018963968,
      3602879701896397 / 18014398509481984,
      1351079888211149 / 4503599627370496,
      3602879701896397 / 9007199254740992,
      1 / 2,
      5404319552844595 / 9007199254740992,
      3152519739159347 / 4503599627370496,
      7205759403792793 / 9007199254740992,
      2026619832316723 / 2251799813685248,
      9007199254740991 / 9007199254740992]"
  by (simp add: upt_conv_Cons eval_nat_numeral opening_start opening_step opening_sums)

lemma opening_ten:
  "actuator_updates 10 (set_position 1 VirtualActuator_init) =
     \<lparr>actuator_position = 9007199254740991 / 9007199254740992, target = 1\<rparr>"
  by (simp add: eval_nat_numeral opening_start opening_step opening_sums)

lemma overshoot_step:
  "VirtualActuator_update \<lparr>actuator_position = 9007199254740991 / 9007199254740992, target = 1\<rparr> =
     (4953959590107545 / 4503599627370496,
      \<lparr>actuator_position = 4953959590107545 / 4503599627370496, target = 1\<rparr>)"
  by (simp add: opening_step opening_sums)

lemma return_step:
  "VirtualActuator_update \<lparr>actuator_position = 4953959590107545 / 4503599627370496, target = 1\<rparr> =
     (9007199254740991 / 9007199254740992,
      \<lparr>actuator_position = 9007199254740991 / 9007199254740992, target = 1\<rparr>)"
  by (simp add: closing_step opening_sums)

lemma opening_even:
  "actuator_updates (10 + 2 * k) (set_position 1 VirtualActuator_init) =
     \<lparr>actuator_position = 9007199254740991 / 9007199254740992, target = 1\<rparr>"
proof (induction k)
  case 0
  show ?case using opening_ten by simp
next
  case (Suc k)
  have "10 + 2 * Suc k = (10 + 2 * k) + 2" by simp
  then have "actuator_updates (10 + 2 * Suc k) (set_position 1 VirtualActuator_init) =
      actuator_updates 2 (actuator_updates (10 + 2 * k) (set_position 1 VirtualActuator_init))"
    by (simp only: actuator_updates_add)
  also have "\<dots> = actuator_updates 2
      \<lparr>actuator_position = 9007199254740991 / 9007199254740992, target = 1\<rparr>"
    by (simp only: Suc.IH)
  also have "\<dots> = \<lparr>actuator_position = 9007199254740991 / 9007199254740992, target = 1\<rparr>"
    by (simp add: numeral_2_eq_2 overshoot_step return_step)
  finally show ?case .
qed

lemma opening_odd:
  "actuator_updates (11 + 2 * k) (set_position 1 VirtualActuator_init) =
     \<lparr>actuator_position = 4953959590107545 / 4503599627370496, target = 1\<rparr>"
proof -
  have "11 + 2 * k = (10 + 2 * k) + 1" by simp
  then have "actuator_updates (11 + 2 * k) (set_position 1 VirtualActuator_init) =
      actuator_updates 1 (actuator_updates (10 + 2 * k) (set_position 1 VirtualActuator_init))"
    by (simp only: actuator_updates_add)
  then show ?thesis by (simp add: opening_even overshoot_step)
qed

text \<open>
  C4, the counterexample. After \<^verbatim>\<open>set_position(1)\<close> on a fresh gate and ten
  \<open>update\<close> calls the position is \<open>0.9999999999999999\<close>, still below the target, so
  the eleventh call adds \<open>0.1\<close> once more and returns \<open>1.0999999999999999\<close>: the position
  exceeds \<open>1.0\<close> and has stepped past the target.
\<close>

theorem gate_opening_overshoots:
  "1 < fst (VirtualActuator_update (actuator_updates 10 (set_position 1 VirtualActuator_init)))"
  by (simp add: opening_ten overshoot_step)

text \<open>
  C4, as the code has it. From position \<open>0\<close> with target \<open>1\<close>, each of the first ten
  \<open>update\<close> calls adds the float \<open>0.1\<close> to the position (a rounded double sum), and
  every position up to the tenth call lies in \<open>[0, 1]\<close>. After the tenth call the
  position is \<open>0.9999999999999999\<close>, which is at least \<open>0.99\<close>. From then on the
  position alternates between \<open>1.0999999999999999\<close> (after calls 11, 13, ...) and
  \<open>0.9999999999999999\<close> (after calls 12, 14, ...); after any number of calls it lies
  in \<open>[0, 1.1]\<close>.
\<close>

theorem gate_opening:
  "map (\<lambda>n. actuator_position (actuator_updates n (set_position 1 VirtualActuator_init))) [0..<11] =
     map (\<lambda>n. ((\<lambda>p. fadd p (float_literal (1 / 10))) ^^ n) 0) [0..<11]
   \<and> list_all (\<lambda>p. 0 \<le> p \<and> p \<le> 1)
       (map (\<lambda>n. actuator_position (actuator_updates n (set_position 1 VirtualActuator_init))) [0..<11])
   \<and> actuator_position (actuator_updates (10 + 2 * k) (set_position 1 VirtualActuator_init)) =
       9007199254740991 / 9007199254740992
   \<and> actuator_position (actuator_updates (11 + 2 * k) (set_position 1 VirtualActuator_init)) =
       4953959590107545 / 4503599627370496
   \<and> 0 \<le> actuator_position (actuator_updates n (set_position 1 VirtualActuator_init))
   \<and> actuator_position (actuator_updates n (set_position 1 VirtualActuator_init)) \<le> 11 / 10"
proof -
  let ?p = "\<lambda>n. actuator_position (actuator_updates n (set_position 1 VirtualActuator_init))"
  have sums: "map ?p [0..<11] = map (\<lambda>n. ((\<lambda>p. fadd p (float_literal (1 / 10))) ^^ n) 0) [0..<11]"
    unfolding opening_positions
    by (simp add: upt_conv_Cons eval_nat_numeral float_literal_tenth opening_sums)
  have first: "list_all (\<lambda>p. 0 \<le> p \<and> p \<le> 1) (map ?p [0..<11])"
    unfolding opening_positions by simp
  have even: "?p (10 + 2 * k) = 9007199254740991 / 9007199254740992" for k
    by (simp only: opening_even VirtualActuator.select_convs)
  have odd: "?p (11 + 2 * k) = 4953959590107545 / 4503599627370496" for k
    by (simp only: opening_odd VirtualActuator.select_convs)
  have bounds: "0 \<le> ?p n \<and> ?p n \<le> 11 / 10"
  proof (cases "n < 11")
    case True
    then have "0 \<le> map ?p [0..<11] ! n \<and> map ?p [0..<11] ! n \<le> 1"
      using first by (simp only: list_all_length length_map length_upt)
    then show ?thesis using True by simp
  next
    case False
    then have "\<exists>j. n = 10 + 2 * j \<or> n = 11 + 2 * j" by presburger
    then obtain j where "n = 10 + 2 * j \<or> n = 11 + 2 * j" ..
    then show ?thesis
    proof
      assume "n = 10 + 2 * j"
      then show ?thesis by (simp only: even) simp
    next
      assume "n = 11 + 2 * j"
      then show ?thesis by (simp only: odd) simp
    qed
  qed
  show ?thesis using sums first even odd bounds by blast
qed

section \<open>The conveyor\<close>

lemma calls_append: "calls (xs @ ys) s = calls ys (calls xs s)"
  by (induction xs arbitrary: s) simp_all

lemma speed_call: "speed (call x s) = speed s"
  by (cases x) (simp_all add: add_object_def VirtualConveyor_update_def)

lemma speed_calls: "speed (calls cs s) = speed s"
  by (induction cs arbitrary: s) (simp_all add: speed_call)

lemma speed_reachable: "speed (calls cs VirtualConveyor_init) = 1 / 2"
  by (simp add: speed_calls VirtualConveyor_init_def float_literal_half)

lemma objects_update:
  "objects (snd (VirtualConveyor_update s)) = map (advance (speed s)) (objects s)"
  by (simp add: VirtualConveyor_update_def)

lemma returned_update:
  "fst (VirtualConveyor_update s) =
     filter (\<lambda>obj. obj_position obj < 100) (map (advance (speed s)) (objects s))"
  by (simp add: VirtualConveyor_update_def)

lemma objects_updates:
  "objects (calls (replicate n Update) s) = map (advance (speed s) ^^ n) (objects s)"
proof (induction n arbitrary: s)
  case 0
  show ?case by simp
next
  case (Suc n)
  have "objects (calls (replicate (Suc n) Update) s) =
      map (advance (speed s) ^^ n) (map (advance (speed s)) (objects s))"
    by (simp add: Suc.IH objects_update speed_call [of Update, simplified])
  then show ?case by (simp add: funpow_swap1)
qed

lemma advance_half:
  "advance (1 / 2) \<lparr>obj_color = c, obj_position = of_nat (min n 9007199254740992) / 2, obj_id = i\<rparr> =
     \<lparr>obj_color = c, obj_position = of_nat (min (Suc n) 9007199254740992) / 2, obj_id = i\<rparr>"
proof -
  consider "n < 9007199254740991" | "n = 9007199254740991" | "9007199254740992 \<le> n"
    by linarith
  then have "fadd (of_nat (min n 9007199254740992) / 2) (1 / 2) =
      of_nat (min (Suc n) 9007199254740992) / 2"
  proof cases
    case 1
    then have "min n 9007199254740992 = n" "min (Suc n) 9007199254740992 = Suc n" by simp_all
    then show ?thesis using fadd_half [OF 1] by (simp only:)
  next
    case 2
    then show ?thesis using fadd_half_last by simp
  next
    case 3
    then have "min n 9007199254740992 = 9007199254740992"
      "min (Suc n) 9007199254740992 = 9007199254740992" by simp_all
    then show ?thesis using fadd_half_stuck by simp
  qed
  then show ?thesis by (simp add: advance_def)
qed

lemma advance_half_funpow:
  "(advance (1 / 2) ^^ n) \<lparr>obj_color = c, obj_position = 0, obj_id = i\<rparr> =
     \<lparr>obj_color = c, obj_position = of_nat (min n 9007199254740992) / 2, obj_id = i\<rparr>"
proof (induction n)
  case 0
  show ?case by simp
next
  case (Suc n)
  then show ?case by (simp add: advance_half del: of_nat_min of_nat_Suc)
qed

lemma objects_added:
  "objects (calls (replicate n Update) (add_object c i (calls cs VirtualConveyor_init))) =
     objects (calls (replicate n Update) (calls cs VirtualConveyor_init)) @
     [\<lparr>obj_color = c, obj_position = of_nat (min n 9007199254740992) / 2, obj_id = i\<rparr>]"
proof -
  have "speed (add_object c i (calls cs VirtualConveyor_init)) = 1 / 2"
    using speed_reachable [of "cs @ [Add_object c i]"] by (simp add: calls_append)
  then show ?thesis
    by (simp add: objects_updates speed_reachable add_object_def advance_half_funpow
        del: of_nat_min)
qed

text \<open>
  What holds of the list that \<open>update\<close> returns. A token is added at position \<open>0\<close> to
  a conveyor reached by any calls. The list that the next \<open>update\<close> calls return holds
  it, after the objects that were there before, at position \<open>k / 2\<close> after the \<open>k\<close>-th
  call for each of the first 199 calls; the list returned by the 200th call, and by
  every later one, does not hold it. Here \<open>n\<close> counts the \<open>update\<close> calls before the
  one whose result is read.
\<close>

lemma returned_token:
  "fst (VirtualConveyor_update
        (calls (replicate n Update) (add_object c i (calls cs VirtualConveyor_init)))) =
     fst (VirtualConveyor_update (calls (replicate n Update) (calls cs VirtualConveyor_init))) @
     (if Suc n < 200
      then [\<lparr>obj_color = c, obj_position = of_nat (Suc n) / 2, obj_id = i\<rparr>]
      else [])"
proof -
  let ?s = "calls cs VirtualConveyor_init"
  have sp: "speed (calls (replicate n Update) (add_object c i ?s)) = 1 / 2"
    using speed_reachable [of "cs @ Add_object c i # replicate n Update"]
    by (simp add: calls_append)
  have sp': "speed (calls (replicate n Update) ?s) = 1 / 2"
    using speed_reachable [of "cs @ replicate n Update"] by (simp add: calls_append)
  have half: "((of_nat m :: rat) / 2 < 100) = (m < 200)" for m :: nat
  proof -
    have "((of_nat m :: rat) < of_nat 200) = (m < 200)" by (simp only: of_nat_less_iff)
    then show ?thesis by simp
  qed
  have "(min (Suc n) 9007199254740992 < 200) = (Suc n < 200)" by (simp add: min_def)
  then have pos: "(of_nat (min (Suc n) 9007199254740992) / 2 < (100::rat)) = (Suc n < 200)"
    by (simp only: half)
  have val: "Suc n < 200 \<Longrightarrow> min (Suc n) 9007199254740992 = Suc n" by simp
  show ?thesis
    unfolding returned_update sp sp' objects_added
    using pos val by (simp add: advance_half del: of_nat_min of_nat_Suc)
qed

lemma objects_first_token:
  "objects (calls (Add_object c i # replicate n Update) VirtualConveyor_init) =
     [\<lparr>obj_color = c, obj_position = of_nat (min n 9007199254740992) / 2, obj_id = i\<rparr>]"
  using objects_added [of n c i "[]"]
  by (simp add: objects_updates VirtualConveyor_init_def del: of_nat_min)

text \<open>
  C1, at the input where the code departs from it: one token added to a fresh conveyor
  and moved by 199 \<open>update\<close> calls, at position \<open>99.5\<close>. The 200th call returns the
  empty list, and the conveyor's own list still holds the token, now at position \<open>100\<close>:
  \<open>update\<close> filters the list it returns and leaves \<^verbatim>\<open>self.objects\<close> as it is.
\<close>

theorem update_leaves_expired_object:
  "fst (VirtualConveyor_update
         (calls (Add_object RED 1000 # replicate 199 Update) VirtualConveyor_init)) = []
   \<and> objects (snd (VirtualConveyor_update
         (calls (Add_object RED 1000 # replicate 199 Update) VirtualConveyor_init))) =
       [\<lparr>obj_color = RED, obj_position = 100, obj_id = 1000\<rparr>]"
proof -
  let ?s = "calls (Add_object RED 1000 # replicate 199 Update) VirtualConveyor_init"
  have sp: "speed ?s = 1 / 2" by (rule speed_reachable)
  have objs: "objects ?s = [\<lparr>obj_color = RED, obj_position = 199 / 2, obj_id = 1000\<rparr>]"
    using objects_first_token [of RED 1000 199] by simp
  have "advance (1 / 2) \<lparr>obj_color = RED, obj_position = 199 / 2, obj_id = 1000\<rparr> =
      \<lparr>obj_color = RED, obj_position = 100, obj_id = 1000\<rparr>"
    using advance_half [of RED 199 1000] by simp
  then show ?thesis
    by (simp only: returned_update objects_update sp objs) simp
qed

text \<open>
  C2, at the input where the code departs from it: after \<^verbatim>\<open>add_object\<close> and 200
  \<open>update\<close> calls on a fresh conveyor, the conveyor holds a token at position \<open>100\<close>,
  outside \<open>[0, 100)\<close>.
\<close>

theorem object_past_limit_stays:
  "objects (calls (Add_object RED 1000 # replicate 200 Update) VirtualConveyor_init) =
     [\<lparr>obj_color = RED, obj_position = 100, obj_id = 1000\<rparr>]"
  using objects_first_token [of RED 1000 200] by simp

text \<open>
  C7, at the input where the code departs from it: a token of any colour and
  identifier, added to a conveyor reached by any calls, and 200 \<open>update\<close> calls. The
  list returned by the 200th call is the one returned had the token never been added,
  so the token is not in it; the conveyor's own list \<^verbatim>\<open>self.objects\<close> after that call
  still ends with the token, now at position \<open>100\<close>. The token has crossed the limit
  with the 200th call and is not absent from the live set.
\<close>

theorem token_stays_in_objects_after_200_updates:
  "fst (VirtualConveyor_update
        (calls (replicate 199 Update) (add_object c i (calls cs VirtualConveyor_init)))) =
     fst (VirtualConveyor_update (calls (replicate 199 Update) (calls cs VirtualConveyor_init)))
   \<and> objects (snd (VirtualConveyor_update
        (calls (replicate 199 Update) (add_object c i (calls cs VirtualConveyor_init))))) =
     objects (snd (VirtualConveyor_update
        (calls (replicate 199 Update) (calls cs VirtualConveyor_init)))) @
     [\<lparr>obj_color = c, obj_position = 100, obj_id = i\<rparr>]"
proof -
  let ?s = "calls cs VirtualConveyor_init"
  have sp: "speed (calls (replicate 199 Update) (add_object c i ?s)) = 1 / 2"
    using speed_reachable [of "cs @ Add_object c i # replicate 199 Update"]
    by (simp add: calls_append)
  have sp': "speed (calls (replicate 199 Update) ?s) = 1 / 2"
    using speed_reachable [of "cs @ replicate 199 Update"] by (simp add: calls_append)
  have objs: "objects (calls (replicate 199 Update) (add_object c i ?s)) =
      objects (calls (replicate 199 Update) ?s) @
      [\<lparr>obj_color = c, obj_position = 199 / 2, obj_id = i\<rparr>]"
    using objects_added [of 199 c i cs] by simp
  have step: "advance (1 / 2) \<lparr>obj_color = c, obj_position = 199 / 2, obj_id = i\<rparr> =
      \<lparr>obj_color = c, obj_position = 100, obj_id = i\<rparr>"
    using advance_half [of c 199 i] by simp
  have returned: "fst (VirtualConveyor_update (calls (replicate 199 Update) (add_object c i ?s))) =
      fst (VirtualConveyor_update (calls (replicate 199 Update) ?s))"
    using returned_token [of 199 c i cs] by simp
  have kept: "objects (snd (VirtualConveyor_update
        (calls (replicate 199 Update) (add_object c i ?s)))) =
      objects (snd (VirtualConveyor_update (calls (replicate 199 Update) ?s))) @
      [\<lparr>obj_color = c, obj_position = 100, obj_id = i\<rparr>]"
    by (simp only: objects_update sp sp' objs map_append list.map step)
  show ?thesis using returned kept by (rule conjI)
qed

lemma call_keeps_fields:
  "map obj_color (take (length (objects s)) (objects (call x s))) = map obj_color (objects s)"
  "map obj_id (take (length (objects s)) (objects (call x s))) = map obj_id (objects s)"
  "length (objects s) \<le> length (objects (call x s))"
  by (cases x; simp add: add_object_def objects_update advance_def comp_def)+

lemma calls_keep_fields:
  "map obj_color (take (length (objects s)) (objects (calls cs s))) = map obj_color (objects s)
   \<and> map obj_id (take (length (objects s)) (objects (calls cs s))) = map obj_id (objects s)
   \<and> length (objects s) \<le> length (objects (calls cs s))"
proof (induction cs arbitrary: s)
  case Nil
  show ?case by simp
next
  case (Cons x cs)
  let ?n = "length (objects s)" and ?s = "call x s"
  let ?m = "length (objects ?s)"
  have le: "?n \<le> ?m" by (rule call_keeps_fields)
  then have tk: "take ?n (objects (calls cs ?s)) = take ?n (take ?m (objects (calls cs ?s)))"
    by (simp add: min_def)
  have "map obj_color (take ?n (objects (calls cs ?s))) =
      take ?n (map obj_color (take ?m (objects (calls cs ?s))))"
    by (subst tk) (simp only: take_map)
  also have "\<dots> = take ?n (map obj_color (objects ?s))" using Cons.IH [of ?s] by simp
  also have "\<dots> = map obj_color (objects s)"
    using call_keeps_fields(1) [of s x] by (simp only: take_map)
  finally have col: "map obj_color (take ?n (objects (calls cs ?s))) = map obj_color (objects s)" .
  have "map obj_id (take ?n (objects (calls cs ?s))) =
      take ?n (map obj_id (take ?m (objects (calls cs ?s))))"
    by (subst tk) (simp only: take_map)
  also have "\<dots> = take ?n (map obj_id (objects ?s))" using Cons.IH [of ?s] by simp
  also have "\<dots> = map obj_id (objects s)"
    using call_keeps_fields(2) [of s x] by (simp only: take_map)
  finally have idn: "map obj_id (take ?n (objects (calls cs ?s))) = map obj_id (objects s)" .
  have "?m \<le> length (objects (calls cs ?s))" using Cons.IH [of ?s] by simp
  with le col idn show ?case by simp
qed

text \<open>
  C10. Through any sequence of \<^verbatim>\<open>add_object\<close> and \<open>update\<close> calls, the tokens that
  were on the conveyor keep their places in its list, their colours and their
  identifiers. A single \<open>update\<close> keeps the colour and identifier of every token and
  the speed, and returns tokens of the conveyor's list; a single \<^verbatim>\<open>add_object\<close>
  leaves the tokens already there, the conveyor position and the speed as they were.
\<close>

theorem color_and_id_never_change:
  "map obj_color (take (length (objects s)) (objects (calls cs s))) = map obj_color (objects s)
   \<and> map obj_id (take (length (objects s)) (objects (calls cs s))) = map obj_id (objects s)
   \<and> map obj_color (objects (snd (VirtualConveyor_update s))) = map obj_color (objects s)
   \<and> map obj_id (objects (snd (VirtualConveyor_update s))) = map obj_id (objects s)
   \<and> speed (snd (VirtualConveyor_update s)) = speed s
   \<and> fst (VirtualConveyor_update s) =
       filter (\<lambda>obj. obj_position obj < 100) (objects (snd (VirtualConveyor_update s)))
   \<and> take (length (objects s)) (objects (add_object c i s)) = objects s
   \<and> conveyor_position (add_object c i s) = conveyor_position s
   \<and> speed (add_object c i s) = speed s"
  using calls_keep_fields [of s cs]
  by (simp add: objects_update returned_update advance_def comp_def add_object_def
      speed_call [of Update, simplified])

text \<open>
  C8, the counterexample. Two \<^verbatim>\<open>add_object\<close> calls may both draw \<open>1000\<close> from
  \<^verbatim>\<open>random.randint(1000, 9999)\<close>; the conveyor then holds two tokens with the same
  identifier.
\<close>

theorem identifiers_can_collide:
  "\<not> distinct (map obj_id (objects
       (calls [Add_object RED 1000, Add_object GREEN 1000] VirtualConveyor_init)))"
  by (simp add: add_object_def VirtualConveyor_init_def)

text \<open>
  C8, as the code has it. \<^verbatim>\<open>add_object\<close> gives the new token the number drawn,
  whatever it is: the identifiers on the conveyor are pairwise distinct after the call
  if and only if they were before and the number drawn is not among them.
\<close>

theorem identifier_unique_iff_fresh_draw:
  "map obj_id (objects (add_object c i s)) = map obj_id (objects s) @ [i]
   \<and> distinct (map obj_id (objects (add_object c i s))) =
       (distinct (map obj_id (objects s)) \<and> i \<notin> set (map obj_id (objects s)))"
  by (auto simp add: add_object_def)

section \<open>The sorter loop\<close>

lemma tick_counts:
  "sorted_counts (snd (tick cvt fr s)) = sorted_counts (control cvt fr s)"
  "target_color (snd (tick cvt fr s)) = target_color (control cvt fr s)"
  by (simp_all add: tick_def Let_def split: prod.splits)

lemma control_target: "target_color (control cvt fr s) = target_color s"
  by (simp add: control_def Let_def)

lemma control_counts:
  "sorted_counts (control cvt fr s) C =
     sorted_counts s C + (if detect cvt fr = target_color s \<and> C = target_color s then 1 else 0)"
  by (simp add: control_def Let_def)

lemma spawn_object_keeps:
  "sorted_counts (spawn_object sp s) = sorted_counts s"
  "target_color (spawn_object sp s) = target_color s"
  by (simp_all add: spawn_object_def split: option.splits)

lemma key_controls_counts: "sorted_counts (fst (key_controls k s)) = sorted_counts s"
  by (simp add: key_controls_def)

lemma key_controls_target:
  "target_color (fst (key_controls k s)) =
     (if k = 114 then RED else if k = 103 then GREEN else if k = 98 then BLUE
      else target_color s)"
  by (simp add: key_controls_def)

lemma key_controls_continue: "snd (key_controls k s) = (k \<noteq> 113)"
  by (simp add: key_controls_def)

lemma loop_pass_counts:
  "sorted_counts (fst (loop_pass cvt inp s)) C =
     sorted_counts s C +
     (if detect cvt (frame inp) = target_color s \<and> C = target_color s then 1 else 0)"
  by (simp only: loop_pass_def key_controls_counts spawn_object_keeps tick_counts control_counts)

lemma loop_pass_target:
  "target_color (fst (loop_pass cvt inp s)) =
     (if key inp = 114 then RED else if key inp = 103 then GREEN else if key inp = 98 then BLUE
      else target_color s)"
  by (simp only: loop_pass_def key_controls_target spawn_object_keeps tick_counts control_target)

lemma loop_pass_continue: "snd (loop_pass cvt inp s) = (key inp \<noteq> 113)"
  by (simp only: loop_pass_def key_controls_continue)

lemma run_Cons:
  "run cvt (inp # inps) s =
     (if key inp = 113 then fst (loop_pass cvt inp s)
      else run cvt inps (fst (loop_pass cvt inp s)))"
  using loop_pass_continue [of cvt inp s]
  by (cases "loop_pass cvt inp s") auto

text \<open>
  C5. A tick adds one to the tally entry of colour \<open>C\<close> exactly when the frame's
  classification equals the target colour the sorter holds at that tick and \<open>C\<close> is
  that colour; otherwise the entry is unchanged. Over two passes of the loop: the first
  pass's decision uses the target at its start, whatever key is pressed in that pass,
  and the second pass's decision uses the target as that key left it (when the key is
  \<open>q\<close> the loop has ended and there is no second pass).
\<close>

theorem tally_follows_target_in_effect:
  "sorted_counts (snd (tick cvt fr s)) C =
     sorted_counts s C + (if detect cvt fr = target_color s \<and> C = target_color s then 1 else 0)
   \<and> sorted_counts (run cvt [inp1, inp2] s) C =
     sorted_counts s C
     + (if detect cvt (frame inp1) = target_color s \<and> C = target_color s then 1 else 0)
     + (if key inp1 = 113 then 0
        else if detect cvt (frame inp2) = target_color (fst (loop_pass cvt inp1 s))
                \<and> C = target_color (fst (loop_pass cvt inp1 s)) then 1 else 0)
   \<and> target_color (fst (loop_pass cvt inp1 s)) =
     (if key inp1 = 114 then RED else if key inp1 = 103 then GREEN
      else if key inp1 = 98 then BLUE else target_color s)"
  by (simp add: tick_counts control_counts run_Cons loop_pass_counts loop_pass_target
      del: run.simps(2))

lemma pass_invariant:
  assumes "target_color s \<noteq> UNKNOWN" and "sorted_counts s UNKNOWN = 0"
  shows "target_color (fst (loop_pass cvt inp s)) \<noteq> UNKNOWN"
    and "sorted_counts (fst (loop_pass cvt inp s)) UNKNOWN = 0"
  using assms by (simp_all add: loop_pass_counts loop_pass_target)

lemma run_invariant:
  assumes "target_color s \<noteq> UNKNOWN" and "sorted_counts s UNKNOWN = 0"
  shows "target_color (run cvt inps s) \<noteq> UNKNOWN \<and> sorted_counts (run cvt inps s) UNKNOWN = 0"
  using assms
proof (induction inps arbitrary: s)
  case Nil
  then show ?case by simp
next
  case (Cons inp inps)
  have inv: "target_color (fst (loop_pass cvt inp s)) \<noteq> UNKNOWN"
    "sorted_counts (fst (loop_pass cvt inp s)) UNKNOWN = 0"
    by (rule pass_invariant [OF Cons.prems])+
  show ?case
  proof (cases "key inp = 113")
    case True
    then show ?thesis using inv by (simp add: run_Cons del: run.simps(2))
  next
    case False
    then show ?thesis using Cons.IH [OF inv] by (simp add: run_Cons del: run.simps(2))
  qed
qed

text \<open>
  C9. After any number of passes of the loop from the initial sorter, on any inputs, the
  tally entry of \<open>UNKNOWN\<close> is \<open>0\<close> and the target colour is one of \<open>RED\<close>,
  \<open>GREEN\<close>, \<open>BLUE\<close>; the entry is still \<open>0\<close> after the detection, control and update
  steps of a further pass.
\<close>

theorem unknown_never_counted:
  "sorted_counts (run cvt inps AutomatedSorter_init) UNKNOWN = 0
   \<and> target_color (run cvt inps AutomatedSorter_init) \<in> {RED, GREEN, BLUE}
   \<and> sorted_counts (snd (tick cvt fr (run cvt inps AutomatedSorter_init))) UNKNOWN = 0"
proof -
  let ?s = "run cvt inps AutomatedSorter_init"
  have inv: "target_color ?s \<noteq> UNKNOWN \<and> sorted_counts ?s UNKNOWN = 0"
    by (rule run_invariant) (simp_all add: AutomatedSorter_init_def)
  then have "target_color ?s \<in> {RED, GREEN, BLUE}"
    by (cases "target_color ?s") simp_all
  moreover have "sorted_counts (snd (tick cvt fr ?s)) UNKNOWN = 0"
    using inv by (auto simp add: tick_counts control_counts)
  ultimately show ?thesis using inv by simp
qed

lemma countNonZero_map: "countNonZero (map P img) = length (filter P img)"
  by (simp add: countNonZero_def filter_map comp_def)

lemma red_pixels_window:
  "red_pixels img =
     length (filter (\<lambda>(h, s, v). h \<le> 10 \<and> 100 \<le> s \<and> s \<le> 255 \<and> 100 \<le> v \<and> v \<le> 255) img)"
  by (simp add: red_pixels_def inRange_def lower_red_def upper_red_def countNonZero_map)

lemma green_pixels_window:
  "green_pixels img =
     length (filter (\<lambda>(h, s, v). 40 \<le> h \<and> h \<le> 80 \<and> 100 \<le> s \<and> s \<le> 255 \<and> 100 \<le> v \<and> v \<le> 255) img)"
  by (simp add: green_pixels_def inRange_def lower_green_def upper_green_def countNonZero_map)

lemma blue_pixels_window:
  "blue_pixels img =
     length (filter (\<lambda>(h, s, v). 100 \<le> h \<and> h \<le> 140 \<and> 100 \<le> s \<and> s \<le> 255 \<and> 100 \<le> v \<and> v \<le> 255) img)"
  by (simp add: blue_pixels_def inRange_def lower_blue_def upper_blue_def countNonZero_map)

lemma detect_windows:
  "detect cvt fr =
     dominant
       (length (filter (\<lambda>(h, s, v). h \<le> 10 \<and> 100 \<le> s \<and> s \<le> 255 \<and> 100 \<le> v \<and> v \<le> 255)
          (cvt fr)))
       (length (filter (\<lambda>(h, s, v). 40 \<le> h \<and> h \<le> 80 \<and> 100 \<le> s \<and> s \<le> 255 \<and> 100 \<le> v \<and> v \<le> 255)
          (cvt fr)))
       (length (filter (\<lambda>(h, s, v). 100 \<le> h \<and> h \<le> 140 \<and> 100 \<le> s \<and> s \<le> 255 \<and> 100 \<le> v \<and> v \<le> 255)
          (cvt fr)))"
  by (simp only: detect_def Let_def red_pixels_window green_pixels_window blue_pixels_window)

lemma detect_one_pixel:
  "detect (\<lambda>img. img) [(h, s, v)] =
     (if 100 \<le> s \<and> s \<le> 255 \<and> 100 \<le> v \<and> v \<le> 255
      then (if h \<le> 10 then RED else if 40 \<le> h \<and> h \<le> 80 then GREEN
            else if 100 \<le> h \<and> h \<le> 140 then BLUE else UNKNOWN)
      else UNKNOWN)"
  by (simp add: detect_windows dominant_def)

lemma detect_three_blocks:
  "detect (\<lambda>img. img)
     (replicate r (5, 200, 200) @ replicate g (60, 200, 200) @ replicate b (120, 200, 200)) =
     dominant r g b"
  by (simp add: detect_windows filter_replicate)

text \<open>
  C3. For every frame, with the pixel counts written out as the numbers of pixels of
  the converted frame inside the red window (hue \<open>0..10\<close>), the green window (hue
  \<open>40..80\<close>) and the blue window (hue \<open>100..140\<close>), each with saturation and value in
  \<open>100..255\<close>, bounds included: \<open>detect\<close> returns a colour exactly when its count is
  strictly greater than both other counts, and \<open>UNKNOWN\<close> exactly when no count is
  strictly greater than both others. Images with 50, 50, 0 pixels in the windows give
  \<open>UNKNOWN\<close> and with 50, 49, 0 give \<open>RED\<close>; further images answer \<open>GREEN\<close> and
  \<open>BLUE\<close>, tie with the blue count, and have their one pixel on and just outside the
  bounds of each window.
\<close>

theorem detect_strict_dominance:
  "(let r = length (filter
              (\<lambda>(h, s, v). h \<le> 10 \<and> 100 \<le> s \<and> s \<le> 255 \<and> 100 \<le> v \<and> v \<le> 255) (cvt fr));
        g = length (filter
              (\<lambda>(h, s, v). 40 \<le> h \<and> h \<le> 80 \<and> 100 \<le> s \<and> s \<le> 255 \<and> 100 \<le> v \<and> v \<le> 255) (cvt fr));
        b = length (filter
              (\<lambda>(h, s, v). 100 \<le> h \<and> h \<le> 140 \<and> 100 \<le> s \<and> s \<le> 255 \<and> 100 \<le> v \<and> v \<le> 255) (cvt fr))
    in (detect cvt fr = RED) = (g < r \<and> b < r)
     \<and> (detect cvt fr = GREEN) = (r < g \<and> b < g)
     \<and> (detect cvt fr = BLUE) = (r < b \<and> g < b)
     \<and> (detect cvt fr = UNKNOWN) = (\<not> (g < r \<and> b < r) \<and> \<not> (r < g \<and> b < g) \<and> \<not> (r < b \<and> g < b)))
   \<and> dominant 50 50 0 = UNKNOWN
   \<and> dominant 50 49 0 = RED
   \<and> detect (\<lambda>img. img) (replicate 50 (5, 200, 200) @ replicate 50 (60, 200, 200)) = UNKNOWN
   \<and> detect (\<lambda>img. img) (replicate 50 (5, 200, 200) @ replicate 49 (60, 200, 200)) = RED
   \<and> detect (\<lambda>img. img)
       (replicate 2 (5, 200, 200) @ replicate 3 (60, 200, 200) @ replicate 1 (120, 200, 200)) = GREEN
   \<and> detect (\<lambda>img. img)
       (replicate 2 (5, 200, 200) @ replicate 1 (60, 200, 200) @ replicate 3 (120, 200, 200)) = BLUE
   \<and> detect (\<lambda>img. img)
       (replicate 2 (5, 200, 200) @ replicate 1 (60, 200, 200) @ replicate 2 (120, 200, 200)) = UNKNOWN
   \<and> detect (\<lambda>img. img)
       (replicate 0 (5, 200, 200) @ replicate 4 (60, 200, 200) @ replicate 4 (120, 200, 200)) = UNKNOWN
   \<and> detect (\<lambda>img. img) [] = UNKNOWN
   \<and> map (\<lambda>px. detect (\<lambda>img. img) [px])
       [(0, 100, 100), (10, 255, 255), (11, 255, 255), (10, 99, 255), (10, 255, 99),
        (10, 256, 255), (10, 255, 256)] =
       [RED, RED, UNKNOWN, UNKNOWN, UNKNOWN, UNKNOWN, UNKNOWN]
   \<and> map (\<lambda>px. detect (\<lambda>img. img) [px])
       [(39, 200, 200), (40, 100, 100), (80, 255, 255), (81, 200, 200), (40, 99, 100),
        (80, 255, 99)] =
       [UNKNOWN, GREEN, GREEN, UNKNOWN, UNKNOWN, UNKNOWN]
   \<and> map (\<lambda>px. detect (\<lambda>img. img) [px])
       [(99, 200, 200), (100, 100, 100), (140, 255, 255), (141, 200, 200), (100, 99, 100),
        (140, 255, 99)] =
       [UNKNOWN, BLUE, BLUE, UNKNOWN, UNKNOWN, UNKNOWN]"
proof -
  have general: "(detect cvt fr = RED) = (g < r \<and> b < r)
      \<and> (detect cvt fr = GREEN) = (r < g \<and> b < g)
      \<and> (detect cvt fr = BLUE) = (r < b \<and> g < b)
      \<and> (detect cvt fr = UNKNOWN) =
          (\<not> (g < r \<and> b < r) \<and> \<not> (r < g \<and> b < g) \<and> \<not> (r < b \<and> g < b))"
    if "detect cvt fr = dominant r g b" for r g b
    unfolding that by (simp add: dominant_def)
  have two: "replicate m (5, 200, 200) @ replicate n (60, 200, 200) =
      replicate m (5, 200, 200) @ replicate n (60, 200, 200) @ replicate 0 (120, 200, 200)"
    for m n :: nat
    by simp
  have blocks:
    "detect (\<lambda>img. img) (replicate 50 (5, 200, 200) @ replicate 50 (60, 200, 200)) = UNKNOWN"
    "detect (\<lambda>img. img) (replicate 50 (5, 200, 200) @ replicate 49 (60, 200, 200)) = RED"
    "detect (\<lambda>img. img)
       (replicate 2 (5, 200, 200) @ replicate 3 (60, 200, 200) @ replicate 1 (120, 200, 200)) = GREEN"
    "detect (\<lambda>img. img)
       (replicate 2 (5, 200, 200) @ replicate 1 (60, 200, 200) @ replicate 3 (120, 200, 200)) = BLUE"
    "detect (\<lambda>img. img)
       (replicate 2 (5, 200, 200) @ replicate 1 (60, 200, 200) @ replicate 2 (120, 200, 200)) = UNKNOWN"
    "detect (\<lambda>img. img)
       (replicate 0 (5, 200, 200) @ replicate 4 (60, 200, 200) @ replicate 4 (120, 200, 200)) = UNKNOWN"
    by (simp_all only: two detect_three_blocks) (simp_all add: dominant_def)
  have counts: "dominant 50 50 0 = UNKNOWN" "dominant 50 49 0 = RED"
    by (simp_all add: dominant_def)
  have empty: "detect (\<lambda>img. img) [] = UNKNOWN"
    by (simp add: detect_windows dominant_def)
  have bounds:
    "map (\<lambda>px. detect (\<lambda>img. img) [px])
       [(0, 100, 100), (10, 255, 255), (11, 255, 255), (10, 99, 255), (10, 255, 99),
        (10, 256, 255), (10, 255, 256)] =
       [RED, RED, UNKNOWN, UNKNOWN, UNKNOWN, UNKNOWN, UNKNOWN]"
    "map (\<lambda>px. detect (\<lambda>img. img) [px])
       [(39, 200, 200), (40, 100, 100), (80, 255, 255), (81, 200, 200), (40, 99, 100),
        (80, 255, 99)] =
       [UNKNOWN, GREEN, GREEN, UNKNOWN, UNKNOWN, UNKNOWN]"
    "map (\<lambda>px. detect (\<lambda>img. img) [px])
       [(99, 200, 200), (100, 100, 100), (140, 255, 255), (141, 200, 200), (100, 99, 100),
        (140, 255, 99)] =
       [UNKNOWN, BLUE, BLUE, UNKNOWN, UNKNOWN, UNKNOWN]"
    by (simp_all add: detect_one_pixel)
  show ?thesis
    unfolding Let_def
    using general [OF detect_windows [of cvt fr]] blocks counts empty bounds
    by (intro conjI) (simp_all only:)
qed

lemma fsub_self: "fsub x x = 0"
  by (simp add: fsub_def round_double_def)

lemma quiet_pass_run:
  "run cvt (quiet_pass fr # inps) s = run cvt inps (snd (tick cvt fr s))"
  by (simp add: quiet_pass_def loop_pass_def key_controls_def spawn_object_def)

lemma tick_gate:
  "gate (snd (tick cvt fr s)) =
     snd (VirtualActuator_update
           (set_position (if detect cvt fr = target_color s then 1 else 0) (gate s)))"
  by (simp add: tick_def control_def Let_def split: prod.splits)

lemma tick_returns_gate_position:
  "fst (fst (tick cvt fr s)) = actuator_position (gate (snd (tick cvt fr s)))"
  by (simp add: tick_def VirtualActuator_update_def Let_def split: prod.splits)

lemma tick_tally:
  "sorted_counts (snd (tick cvt fr s)) C =
     sorted_counts s C + (if detect cvt fr = target_color s \<and> C = target_color s then 1 else 0)"
  "target_color (snd (tick cvt fr s)) = target_color s"
  by (simp_all add: tick_def control_def Let_def split: prod.splits)

text \<open>
  C6. From the initial sorter (target \<open>RED\<close>), three passes with no object added and no
  key pressed, on frames that classify as \<open>RED\<close>, \<open>GREEN\<close>, \<open>RED\<close>: the gate
  position is \<open>0.1\<close> after the first, \<open>0\<close> after the second and \<open>0.1\<close> after the
  third, and the tally ends as \<open>RED\<close> 2, \<open>GREEN\<close> 0, \<open>BLUE\<close> 0, \<open>UNKNOWN\<close> 0. The
  position \<open>0.1\<close> is the Python float of that name, the double
  \<open>3602879701896397 / 2 ^ 55\<close>.
\<close>

theorem three_ticks_red_green_red:
  assumes "detect cvt f1 = RED" and "detect cvt f2 = GREEN" and "detect cvt f3 = RED"
  shows "actuator_position (gate (run cvt [quiet_pass f1] AutomatedSorter_init)) =
           3602879701896397 / 36028797018963968
       \<and> actuator_position (gate (run cvt [quiet_pass f1, quiet_pass f2] AutomatedSorter_init)) = 0
       \<and> actuator_position
           (gate (run cvt [quiet_pass f1, quiet_pass f2, quiet_pass f3] AutomatedSorter_init)) =
           3602879701896397 / 36028797018963968
       \<and> sorted_counts
           (run cvt [quiet_pass f1, quiet_pass f2, quiet_pass f3] AutomatedSorter_init) RED = 2
       \<and> sorted_counts
           (run cvt [quiet_pass f1, quiet_pass f2, quiet_pass f3] AutomatedSorter_init) GREEN = 0
       \<and> sorted_counts
           (run cvt [quiet_pass f1, quiet_pass f2, quiet_pass f3] AutomatedSorter_init) BLUE = 0
       \<and> sorted_counts
           (run cvt [quiet_pass f1, quiet_pass f2, quiet_pass f3] AutomatedSorter_init) UNKNOWN = 0"
proof -
  let ?t = "3602879701896397 / 36028797018963968 :: rat"
  define s1 where "s1 = snd (tick cvt f1 AutomatedSorter_init)"
  define s2 where "s2 = snd (tick cvt f2 s1)"
  define s3 where "s3 = snd (tick cvt f3 s2)"
  have t1: "target_color s1 = RED" and t2: "target_color s2 = RED"
    by (simp_all add: s1_def s2_def tick_tally AutomatedSorter_init_def)
  have g1: "gate s1 = \<lparr>actuator_position = ?t, target = 1\<rparr>"
    using assms(1)
    by (simp add: s1_def tick_gate AutomatedSorter_init_def VirtualActuator_init_def
        set_position_def VirtualActuator_update_def float_literal_tenth opening_sums)
  have g2: "gate s2 = \<lparr>actuator_position = 0, target = 0\<rparr>"
    using assms(2)
    by (simp add: s2_def tick_gate t1 g1 set_position_def VirtualActuator_update_def
        float_literal_tenth fsub_self)
  have g3: "gate s3 = \<lparr>actuator_position = ?t, target = 1\<rparr>"
    using assms(3)
    by (simp add: s3_def tick_gate t2 g2 set_position_def VirtualActuator_update_def
        float_literal_tenth opening_sums)
  have c: "sorted_counts s3 RED = 2" "sorted_counts s3 GREEN = 0"
    "sorted_counts s3 BLUE = 0" "sorted_counts s3 UNKNOWN = 0"
    using assms
    by (simp_all add: s3_def s2_def s1_def tick_tally AutomatedSorter_init_def)
  have r1: "run cvt [quiet_pass f1] AutomatedSorter_init = s1"
    by (simp only: quiet_pass_run run.simps(1) s1_def)
  have r2: "run cvt [quiet_pass f1, quiet_pass f2] AutomatedSorter_init = s2"
    by (simp only: quiet_pass_run run.simps(1) s1_def s2_def)
  have r3: "run cvt [quiet_pass f1, quiet_pass f2, quiet_pass f3] AutomatedSorter_init = s3"
    by (simp only: quiet_pass_run run.simps(1) s1_def s2_def s3_def)
  show ?thesis
    unfolding r1 r2 r3 by (simp add: g1 g2 g3 c float_literal_tenth)
qed

text \<open>
  The scenario on one-pixel images, with the identity as colour conversion.
\<close>

theorem three_ticks_red_green_red_witness:
  "detect (\<lambda>img. img) [(5, 200, 200)] = RED
   \<and> detect (\<lambda>img. img) [(60, 200, 200)] = GREEN
   \<and> actuator_position (gate (run (\<lambda>img. img) [quiet_pass [(5, 200, 200)]] AutomatedSorter_init)) =
       3602879701896397 / 36028797018963968
   \<and> actuator_position (gate (run (\<lambda>img. img)
         [quiet_pass [(5, 200, 200)], quiet_pass [(60, 200, 200)]] AutomatedSorter_init)) = 0
   \<and> actuator_position (gate (run (\<lambda>img. img)
         [quiet_pass [(5, 200, 200)], quiet_pass [(60, 200, 200)], quiet_pass [(5, 200, 200)]]
         AutomatedSorter_init)) = 3602879701896397 / 36028797018963968
   \<and> sorted_counts (run (\<lambda>img. img)
         [quiet_pass [(5, 200, 200)], quiet_pass [(60, 200, 200)], quiet_pass [(5, 200, 200)]]
         AutomatedSorter_init) RED = 2"
proof -
  have red: "detect (\<lambda>img. img) [(5, 200, 200)] = RED"
    by (simp add: detect_def dominant_def red_pixels_def green_pixels_def blue_pixels_def
        countNonZero_def inRange_def lower_red_def upper_red_def lower_green_def
        upper_green_def lower_blue_def upper_blue_def)
  have green: "detect (\<lambda>img. img) [(60, 200, 200)] = GREEN"
    by (simp add: detect_def dominant_def red_pixels_def green_pixels_def blue_pixels_def
        countNonZero_def inRange_def lower_red_def upper_red_def lower_green_def
        upper_green_def lower_blue_def upper_blue_def)
  show ?thesis
    using red green three_ticks_red_green_red [OF red green red] by blast
qed

end
